theory Spec2Isabelle
  imports Complex_Main "HOL-Library.Multiset" "HOL-Library.Char_ord" "HOL-Library.List_Lexorder"
begin

section \<open>Data model\<close>

text \<open>
  The analysis functions of \<^verbatim>\<open>src/analysis.py\<close> work on a pandas DataFrame of UPI
  transactions. A table is modelled as the list of its rows, in row order; a row is a record
  of the seventeen columns of the CSV file. A missing cell (pandas' NaN, NaT for a
  timestamp) of a text or timestamp column is \<open>None\<close>. The columns \<open>amount\<close>, \<open>hour\<close>,
  \<open>month\<close> and \<open>is_fraud\<close> of this record are integer columns (\<open>int64\<close>), as the data
  generator writes them: every row has a value, and a sum of the column wraps around at 64
  bits. The floating point results of pandas (means, ranks, quantiles, scores) are modelled
  by exact rationals. A table whose \<open>amount\<close> column has a missing or a decimal value has a
  floating point column instead; the anomaly scorer is modelled on such a table as well, in
  the section on float columns.
\<close>

datatype calendar_month =
  January | February | March | April | May | June
  | July | August | September | October | November | December

text \<open>The ordered categories that \<^verbatim>\<open>load_data\<close> gives the \<open>month_name\<close> column.\<close>

definition categories :: "calendar_month list" where
  "categories = [January, February, March, April, May, June,
                 July, August, September, October, November, December]"


text \<open>The position of a month in \<open>categories\<close> (the code of the categorical value).\<close>

fun month_code :: "calendar_month \<Rightarrow> nat" where
  "month_code January = 0"
| "month_code February = 1"
| "month_code March = 2"
| "month_code April = 3"
| "month_code May = 4"
| "month_code June = 5"
| "month_code July = 6"
| "month_code August = 7"
| "month_code September = 8"
| "month_code October = 9"
| "month_code November = 10"
| "month_code December = 11"

record transaction =
  transaction_id :: string
  date :: "int option"
  time :: "string option"
  datetime :: "int option"
  month :: int
  month_name :: "calendar_month option"
  day_of_week :: "string option"
  hour :: int
  category :: "string option"
  merchant :: "string option"
  amount :: int
  payment_mode :: "string option"
  sender_bank :: "string option"
  receiver_bank :: "string option"
  state :: "string option"
  status :: "string option"
  is_fraud :: int

type_synonym table = "transaction list"

datatype error = ValueError | KeyError | AttributeError

section \<open>Numeric helpers of numpy and pandas\<close>

text \<open>
  The value of an \<open>int64\<close> computation whose exact result is \<open>x\<close>: the result wraps around
  into the range from \<open>-2^63\<close> to \<open>2^63 - 1\<close>. \<^verbatim>\<open>Series.sum()\<close> and the group-wise \<open>sum\<close>
  of an integer column add in \<open>int64\<close>.
\<close>

definition int64 :: "int \<Rightarrow> int" where
  "int64 x = (x + 2 ^ 63) mod 2 ^ 64 - 2 ^ 63"

definition int64_sum :: "int list \<Rightarrow> int" where
  "int64_sum xs = int64 (sum_list xs)"

text \<open>Rounding to the nearest integer, a tie going to the even neighbour (numpy's \<open>rint\<close>).\<close>

definition round_half_even :: "rat \<Rightarrow> int" where
  "round_half_even x =
     (let f = \<lfloor>x\<rfloor>; d = x - of_int f
      in if d < 1 / 2 then f
         else if 1 / 2 < d then f + 1
         else if even f then f else f + 1)"

text \<open>
  \<^verbatim>\<open>x.round(nd)\<close> of a numpy float and of a float column. The model rounds the exact
  value; numpy rounds the double nearest to it, so the two can differ by one unit of the last
  decimal when the exact value lies halfway between two decimals.
\<close>

definition np_round :: "nat \<Rightarrow> rat \<Rightarrow> rat" where
  "np_round nd x = of_int (round_half_even (x * 10 ^ nd)) / 10 ^ nd"

text \<open>\<^verbatim>\<open>Series.clip(lo, hi)\<close> on one value.\<close>

definition clip :: "rat \<Rightarrow> rat \<Rightarrow> rat \<Rightarrow> rat" where
  "clip lo hi x = (if x < lo then lo else if hi < x then hi else x)"

text \<open>
  \<^verbatim>\<open>Series.mean()\<close> of an integer column: a numpy \<open>float64\<close> when the column has a
  value, and for the empty column the NaN that pandas returns for it, which is a plain
  Python \<open>float\<close>.
\<close>

datatype mean_result = Float64 rat | PyFloatNaN

definition series_mean :: "int list \<Rightarrow> mean_result" where
  "series_mean xs =
     (if xs = [] then PyFloatNaN
      else Float64 (of_int (sum_list xs) / of_nat (length xs)))"

text \<open>
  The method call \<^verbatim>\<open>.round(2)\<close> on the result of \<^verbatim>\<open>mean()\<close>: \<open>numpy.float64\<close> has
  the method, the Python \<open>float\<close> has not.
\<close>

definition round_method :: "nat \<Rightarrow> mean_result \<Rightarrow> error + rat" where
  "round_method nd m =
     (case m of Float64 v \<Rightarrow> Inr (np_round nd v) | PyFloatNaN \<Rightarrow> Inl AttributeError)"

text \<open>The builtin \<^verbatim>\<open>round(m * 100, 2)\<close>; \<open>None\<close> is NaN.\<close>

definition round_pct :: "mean_result \<Rightarrow> rat option" where
  "round_pct m = (case m of Float64 v \<Rightarrow> Some (np_round 2 (v * 100)) | PyFloatNaN \<Rightarrow> None)"

text \<open>\<^verbatim>\<open>Series.median()\<close>; \<open>None\<close> is NaN, the median of the empty column.\<close>

definition series_median :: "int list \<Rightarrow> rat option" where
  "series_median xs =
     (let s = sort xs; n = length s
      in if n = 0 then None
         else if odd n then Some (of_int (s ! (n div 2)))
         else Some ((of_int (s ! (n div 2 - 1)) + of_int (s ! (n div 2))) / 2))"

text \<open>\<^verbatim>\<open>Series.min()\<close> and \<^verbatim>\<open>Series.max()\<close> of a timestamp column skip NaT; NaT when nothing is left.\<close>

definition series_min :: "int option list \<Rightarrow> int option" where
  "series_min c = (case List.map_filter id c of [] \<Rightarrow> None | x # xs \<Rightarrow> Some (fold min xs x))"

definition series_max :: "int option list \<Rightarrow> int option" where
  "series_max c = (case List.map_filter id c of [] \<Rightarrow> None | x # xs \<Rightarrow> Some (fold max xs x))"

text \<open>\<^verbatim>\<open>Series.nunique()\<close>: the number of distinct values, NaN not counted.\<close>

definition nunique :: "'a option list \<Rightarrow> nat" where
  "nunique c = length (remdups (List.map_filter id c))"

section \<open>Basic information\<close>

record basic_info_result =
  total_transactions :: nat
  info_total_spend :: int
  avg_transaction :: rat
  median_transaction :: "rat option"
  date_range :: "int option \<times> int option"
  unique_merchants :: nat
  unique_categories :: nat
  flagged_count :: int
  fraud_rate_pct :: "rat option"

text \<open>
  The dictionary is built entry by entry, so the first failing entry decides the outcome:
  only \<open>avg_transaction\<close> calls a method on the result of \<open>mean()\<close>.
\<close>

definition basic_info :: "table \<Rightarrow> error + basic_info_result" where
  "basic_info df =
     (case round_method 2 (series_mean (map amount df)) of
        Inl e \<Rightarrow> Inl e
      | Inr avg \<Rightarrow> Inr \<lparr>
          total_transactions = length df,
          info_total_spend = int64_sum (map amount df),
          avg_transaction = avg,
          median_transaction = series_median (map amount df),
          date_range = (series_min (map date df), series_max (map date df)),
          unique_merchants = nunique (map merchant df),
          unique_categories = nunique (map category df),
          flagged_count = int64_sum (map is_fraud df),
          fraud_rate_pct = round_pct (series_mean (map is_fraud df)) \<rparr>)"

section \<open>Grouping and sorting\<close>

text \<open>
  \<^verbatim>\<open>df.groupby(key)\<close> with the defaults \<open>sort=True\<close> and \<open>dropna=True\<close>: one group for
  each distinct key that is present, in ascending key order; the rows of a group keep their
  order; a row whose key is missing belongs to no group.
\<close>

definition groupby :: "('r \<Rightarrow> 'k::linorder option) \<Rightarrow> 'r list \<Rightarrow> ('k \<times> 'r list) list" where
  "groupby key df =
     map (\<lambda>k. (k, filter (\<lambda>r. key r = Some k) df)) (sort (remdups (List.map_filter key df)))"

text \<open>
  Grouping by the categorical \<open>month_name\<close> with \<open>observed=True\<close>: the groups follow the
  order of the categories, and a category that no row has gives no group.
\<close>

definition groupby_month :: "table \<Rightarrow> (calendar_month \<times> table) list" where
  "groupby_month df =
     map (\<lambda>m. (m, filter (\<lambda>r. month_name r = Some m) df))
         (filter (\<lambda>m. Some m \<in> set (map month_name df)) categories)"

text \<open>
  \<^verbatim>\<open>sort_values(col, ascending=False)\<close> reorders the rows by the index array that
  numpy's \<open>argsort\<close> (default kind, \<open>quicksort\<close>) computes for the key column. The sorting
  routine belongs to numpy and is a parameter here: \<open>argsort ks\<close> is the index array for
  the descending order of the keys \<open>ks\<close>.
\<close>

definition sort_values :: "(int list \<Rightarrow> nat list) \<Rightarrow> ('r \<Rightarrow> int) \<Rightarrow> 'r list \<Rightarrow> 'r list" where
  "sort_values argsort key rs = map (\<lambda>i. rs ! i) (argsort (map key rs))"

text \<open>What every sorting routine guarantees: the index array is a permutation of the positions.\<close>

definition permutes_positions :: "(int list \<Rightarrow> nat list) \<Rightarrow> bool" where
  "permutes_positions argsort \<longleftrightarrow> (\<forall>ks. mset (argsort ks) = mset [0..<length ks])"

text \<open>
  A stable sorting routine for the descending order, to run the summaries on examples:
  among equal keys the earlier position comes first.
\<close>

definition stable_argsort :: "int list \<Rightarrow> nat list" where
  "stable_argsort ks = map snd (sort_key (\<lambda>p. - fst p) (zip ks [0..<length ks]))"

text \<open>\<^verbatim>\<open>DataFrame.head(n)\<close>: the first \<open>n\<close> rows, or all but the last \<open>-n\<close> when \<open>n\<close> is negative.\<close>

definition head :: "int \<Rightarrow> 'r list \<Rightarrow> 'r list" where
  "head n rs = (if 0 \<le> n then take (nat n) rs else take (length rs - nat (- n)) rs)"

section \<open>Spending summaries\<close>

record 'k summary_row =
  group_key :: 'k
  total_spend :: int
  transaction_count :: nat
  avg_spend :: rat
  flagged :: int

text \<open>
  The four named aggregations of one group. A group is never empty, so its mean is defined.
  The sums are \<open>int64\<close> sums; the mean is computed in floating point and modelled exactly.
\<close>

definition agg :: "'k \<times> table \<Rightarrow> 'k summary_row" where
  "agg g = \<lparr> group_key = fst g,
             total_spend = int64_sum (map amount (snd g)),
             transaction_count = length (snd g),
             avg_spend = of_int (sum_list (map amount (snd g))) / of_nat (length (snd g)),
             flagged = int64_sum (map is_fraud (snd g)) \<rparr>"

definition monthly_summary :: "table \<Rightarrow> calendar_month summary_row list" where
  "monthly_summary df = map agg (groupby_month df)"

definition category_summary :: "(int list \<Rightarrow> nat list) \<Rightarrow> table \<Rightarrow> string summary_row list" where
  "category_summary argsort df = sort_values argsort total_spend (map agg (groupby category df))"

text \<open>Rows of \<open>top_merchants\<close> and \<open>state_summary\<close>: key, \<open>total_spend\<close>, \<open>count\<close>.\<close>

definition agg_sum_count :: "'k \<times> table \<Rightarrow> 'k \<times> int \<times> nat" where
  "agg_sum_count g = (fst g, int64_sum (map amount (snd g)), length (snd g))"

definition top_merchants :: "(int list \<Rightarrow> nat list) \<Rightarrow> table \<Rightarrow> int \<Rightarrow> (string \<times> int \<times> nat) list" where
  "top_merchants argsort df n =
     head n (sort_values argsort (\<lambda>r. fst (snd r)) (map agg_sum_count (groupby merchant df)))"

text \<open>
  Rows of \<open>dayofweek_summary\<close>: the day, then \<open>total_spend\<close>, \<open>count\<close> and \<open>avg_spend\<close>.
  \<^verbatim>\<open>reindex(order)\<close> makes one row for each of the seven days of \<open>order\<close>; a day without
  a group has missing metrics, and a group of another key is dropped.
\<close>

definition order :: "string list" where
  "order = [''Monday'', ''Tuesday'', ''Wednesday'', ''Thursday'', ''Friday'', ''Saturday'', ''Sunday'']"

definition reindex :: "'k list \<Rightarrow> ('k \<times> 'v) list \<Rightarrow> ('k \<times> 'v option) list" where
  "reindex keys rows = map (\<lambda>k. (k, map_of rows k)) keys"

definition agg_dayofweek :: "string \<times> table \<Rightarrow> string \<times> (int \<times> nat \<times> rat)" where
  "agg_dayofweek g =
     (fst g, (int64_sum (map amount (snd g)), length (snd g),
              of_int (sum_list (map amount (snd g))) / of_nat (length (snd g))))"

definition dayofweek_summary :: "table \<Rightarrow> (string \<times> (int \<times> nat \<times> rat) option) list" where
  "dayofweek_summary df = reindex order (map agg_dayofweek (groupby day_of_week df))"

text \<open>Rows of \<open>hourly_summary\<close>: \<open>hour\<close>, \<open>count\<close>, \<open>flagged\<close>, \<open>total_spend\<close>.\<close>

definition hourly_summary :: "table \<Rightarrow> (int \<times> nat \<times> int \<times> int) list" where
  "hourly_summary df =
     map (\<lambda>g. (fst g, length (snd g), int64_sum (map is_fraud (snd g)), int64_sum (map amount (snd g))))
         (groupby (\<lambda>r. Some (hour r)) df)"

text \<open>Rows of \<open>payment_mode_summary\<close>: \<open>payment_mode\<close>, \<open>count\<close>, \<open>total_spend\<close>, \<open>avg_spend\<close>.\<close>

definition payment_mode_summary :: "table \<Rightarrow> (string \<times> nat \<times> int \<times> rat) list" where
  "payment_mode_summary df =
     map (\<lambda>g. (fst g, length (snd g), int64_sum (map amount (snd g)),
               of_int (sum_list (map amount (snd g))) / of_nat (length (snd g))))
         (groupby payment_mode df)"

definition state_summary :: "(int list \<Rightarrow> nat list) \<Rightarrow> table \<Rightarrow> (string \<times> int \<times> nat) list" where
  "state_summary argsort df =
     sort_values argsort (\<lambda>r. fst (snd r)) (map agg_sum_count (groupby state df))"

section \<open>Anomaly scoring\<close>

text \<open>
  \<^verbatim>\<open>Series.rank(pct=True)\<close> with the default method \<open>average\<close>: the rank of a value is the
  mean of the positions that its occurrences take in the sorted column, counted from 1, and
  \<open>pct\<close> divides the rank by the number of values.
\<close>

definition rank_avg :: "int list \<Rightarrow> int \<Rightarrow> rat" where
  "rank_avg xs a =
     of_nat (length (filter (\<lambda>x. x < a) xs)) + (of_nat (length (filter (\<lambda>x. x = a) xs)) + 1) / 2"

definition rank_pct :: "int list \<Rightarrow> rat list" where
  "rank_pct xs = map (\<lambda>a. rank_avg xs a / of_nat (length xs)) xs"

text \<open>
  \<^verbatim>\<open>Series.quantile(q)\<close> with the default linear interpolation between the two sorted
  values around the position \<open>q * (n - 1)\<close>; \<open>None\<close> is NaN, the quantile of the empty column.
\<close>

definition quantile :: "rat \<Rightarrow> int list \<Rightarrow> rat option" where
  "quantile q xs =
     (if xs = [] then None
      else let s = sort xs;
               pos = q * of_nat (length xs - 1);
               lo = nat \<lfloor>pos\<rfloor>;
               hi = nat \<lceil>pos\<rceil>
           in Some (of_int (s ! lo) + (pos - of_nat lo) * (of_int (s ! hi) - of_int (s ! lo))))"

text \<open>The lambda applied to the \<open>hour\<close> column: \<^verbatim>\<open>30 if h in range(1, 5) else 0\<close>.\<close>

definition odd_hour :: "int \<Rightarrow> rat" where
  "odd_hour h = (if h \<in> set [1..4] then 30 else 0)"

text \<open>
  \<^verbatim>\<open>(amount > threshold).astype(int) * 20\<close> on one value; a comparison with NaN is false.
\<close>

definition high_val :: "rat option \<Rightarrow> int \<Rightarrow> rat" where
  "high_val threshold a =
     (case threshold of None \<Rightarrow> 0 | Some t \<Rightarrow> if t < of_int a then 20 else 0)"

text \<open>The sum \<^verbatim>\<open>amount_pct + odd_hour + high_val\<close> of the three columns, row by row.\<close>

definition component_sum :: "table \<Rightarrow> rat list" where
  "component_sum df =
     (let amount_pct = map (\<lambda>p. p * 40) (rank_pct (map amount df));
          odd = map (\<lambda>r. odd_hour (hour r)) df;
          high = map (high_val (quantile (95 / 100) (map amount df))) (map amount df)
      in map (\<lambda>(p, h, v). p + h + v) (zip amount_pct (zip odd high)))"

text \<open>The column \<open>anomaly_score\<close>: \<^verbatim>\<open>(...).clip(0, 100).round(1)\<close>.\<close>

definition anomaly_score_column :: "table \<Rightarrow> rat list" where
  "anomaly_score_column df = map (\<lambda>s. np_round 1 (clip 0 100 s)) (component_sum df)"

text \<open>
  \<open>compute_anomaly_score\<close> receives a reference to a DataFrame object, copies the object and
  assigns the new column to the copy. The objects live in a heap, a reference is a position
  in it; a DataFrame object holds the rows of the seventeen columns and the column
  \<open>anomaly_score\<close>, absent until it is assigned.
\<close>

record frame =
  rows :: table
  anomaly_score :: "rat list option"

type_synonym heap = "frame list"

text \<open>\<^verbatim>\<open>df.copy()\<close>: a new object with the same contents.\<close>

definition df_copy :: "heap \<Rightarrow> nat \<Rightarrow> nat \<times> heap" where
  "df_copy h r = (length h, h @ [h ! r])"

text \<open>\<^verbatim>\<open>df["anomaly_score"] = col\<close>: the object is changed in place.\<close>

definition set_anomaly_score :: "heap \<Rightarrow> nat \<Rightarrow> rat list \<Rightarrow> heap" where
  "set_anomaly_score h r col = h[r := (h ! r)\<lparr>anomaly_score := Some col\<rparr>]"

definition compute_anomaly_score :: "heap \<Rightarrow> nat \<Rightarrow> nat \<times> heap" where
  "compute_anomaly_score h df =
     (let (df', h1) = df_copy h df;
          col = anomaly_score_column (rows (h1 ! df'))
      in (df', set_anomaly_score h1 df' col))"

section \<open>Anomaly scoring on float columns\<close>










section \<open>Loading\<close>
















section \<open>Example tables\<close>

text \<open>
  A row with the given identifier, month, hour, category, amount and fraud flag; the other
  columns are the same in every example row.
\<close>

definition sample_row ::
  "string \<Rightarrow> calendar_month option \<Rightarrow> int \<Rightarrow> string option \<Rightarrow> int \<Rightarrow> int \<Rightarrow> transaction" where
  "sample_row tid m h c a f =
     \<lparr> transaction_id = tid, date = None, time = None, datetime = None, month = 1,
       month_name = m, day_of_week = Some ''Monday'', hour = h, category = c,
       merchant = Some ''Ola'', amount = a, payment_mode = Some ''QR Code'',
       sender_bank = Some ''SBI'', receiver_bank = Some ''HDFC'', state = Some ''Delhi'',
       status = None, is_fraud = f \<rparr>"

text \<open>Three transactions of 100, 5000 and 8000 at the hours 10, 2 and 14, every category present.\<close>

definition sample_table :: table where
  "sample_table =
     [sample_row ''TXN00001'' (Some March) 10 (Some ''Shopping'') 100 0,
      sample_row ''TXN00002'' (Some January) 2 (Some ''Travel'') 5000 1,
      sample_row ''TXN00003'' (Some March) 14 (Some ''Shopping'') 8000 0]"

text \<open>The same transactions, the category of the last one missing.\<close>

definition sample_table_null :: table where
  "sample_table_null =
     [sample_row ''TXN00001'' (Some March) 10 (Some ''Shopping'') 100 0,
      sample_row ''TXN00002'' (Some January) 2 (Some ''Travel'') 5000 1,
      sample_row ''TXN00003'' (Some March) 14 None 8000 0]"

text \<open>A table of one transaction without category.\<close>

definition sample_table_uncategorised :: table where
  "sample_table_uncategorised = [sample_row ''TXN00001'' (Some March) 10 None 100 0]"

text \<open>A table with a transaction of amount 0 that has no category.\<close>

definition sample_table_zero :: table where
  "sample_table_zero =
     [sample_row ''TXN00001'' (Some March) 10 (Some ''Shopping'') 100 0,
      sample_row ''TXN00002'' (Some March) 11 None 0 0]"



text \<open>A heap of one DataFrame object, not scored yet.\<close>

definition sample_heap :: heap where
  "sample_heap = [\<lparr> rows = sample_table, anomaly_score = None \<rparr>]"



section \<open>Properties of the rounding\<close>




section \<open>The anomaly score and its three components\<close>




lemma odd_hour_iff: "odd_hour h = (if 1 \<le> h \<and> h < 5 then 30 else 0)"
  by (simp add: odd_hour_def) 



lemma component_sum_nth:
  assumes "i < length df"
  shows "component_sum df ! i =
           rank_pct (map amount df) ! i * 40 + odd_hour (hour (df ! i))
           + high_val (quantile (95 / 100) (map amount df)) (amount (df ! i))"
  using assms by (simp add: component_sum_def Let_def rank_pct_def)

lemma length_component_sum: "length (component_sum df) = length df"
  by (simp add: component_sum_def Let_def rank_pct_def)

lemma compute_anomaly_score_eq:
  assumes "df < length h"
  shows "compute_anomaly_score h df
         = (length h, h @ [(h ! df)\<lparr>anomaly_score := Some (anomaly_score_column (rows (h ! df)))\<rparr>])"
  using assms
  by (simp add: compute_anomaly_score_def df_copy_def set_anomaly_score_def Let_def nth_append
      list_update_append)

lemma length_anomaly_score_column: "length (anomaly_score_column df) = length df"
  by (simp add: anomaly_score_column_def length_component_sum)


section \<open>Properties of the 64-bit sums\<close>

lemma int64_eq_iff: "int64 x = int64 y \<longleftrightarrow> (2 ^ 64 :: int) dvd (x - y)"
proof -
  have "int64 x = int64 y \<longleftrightarrow> (x + 2 ^ 63) mod 2 ^ 64 = (y + 2 ^ 63) mod (2 ^ 64 :: int)"
    by (simp add: int64_def)
  also have "\<dots> \<longleftrightarrow> (2 ^ 64 :: int) dvd ((x + 2 ^ 63) - (y + 2 ^ 63))"
    by (rule mod_eq_dvd_iff)
  finally show ?thesis by simp
qed

lemma int64_0: "int64 0 = 0"
  by (simp add: int64_def)

lemma int64_eq_0_iff: "int64 x = 0 \<longleftrightarrow> (2 ^ 64 :: int) dvd x"
  using int64_eq_iff [of x 0] by (simp add: int64_0)

lemma int64_idem: "(2 ^ 64 :: int) dvd (int64 x - x)"
proof -
  have "(x + 2 ^ 63) mod 2 ^ 64 = (x + 2 ^ 63) - 2 ^ 64 * ((x + 2 ^ 63) div (2 ^ 64 :: int))"
    by (rule minus_mult_div_eq_mod [symmetric])
  then have "int64 x - x = - (2 ^ 64 * ((x + 2 ^ 63) div (2 ^ 64 :: int)))"
    by (simp add: int64_def)
  then show ?thesis by simp
qed

lemma int64_add_cong:
  assumes "int64 x = int64 x'" and "int64 y = int64 y'"
  shows "int64 (x + y) = int64 (x' + y')"
proof -
  from assms have "(2 ^ 64 :: int) dvd (x - x')" "(2 ^ 64 :: int) dvd (y - y')"
    by (simp_all only: int64_eq_iff)
  then have "(2 ^ 64 :: int) dvd ((x - x') + (y - y'))" by (rule dvd_add)
  moreover have "(x - x') + (y - y') = (x + y) - (x' + y')" by simp
  ultimately show ?thesis by (simp only: int64_eq_iff)
qed

lemma int64_int64: "int64 (int64 x) = int64 x"
  unfolding int64_eq_iff by (rule int64_idem)

lemma int64_sum_list_int64:
  "int64 (sum_list (map (\<lambda>x. int64 (f x)) xs)) = int64 (sum_list (map f xs))"
proof (induction xs)
  case Nil
  then show ?case by simp
next
  case (Cons x xs)
  have "int64 (int64 (f x) + sum_list (map (\<lambda>x. int64 (f x)) xs)) = int64 (f x + sum_list (map f xs))"
    by (rule int64_add_cong) (simp_all only: int64_int64 Cons.IH)
  then show ?case by simp
qed

lemma int64_small: "- (2 ^ 63) \<le> x \<Longrightarrow> x < 2 ^ 63 \<Longrightarrow> int64 x = x"
  by (simp add: int64_def)

section \<open>Properties of sorting by an index array\<close>

lemma mset_sort_values:
  assumes "permutes_positions argsort"
  shows "mset (sort_values argsort key rs) = mset rs"
proof -
  have "mset (argsort (map key rs)) = mset [0..<length rs]"
    using assms by (simp add: permutes_positions_def)
  then have "image_mset (\<lambda>i. rs ! i) (mset (argsort (map key rs)))
             = image_mset (\<lambda>i. rs ! i) (mset [0..<length rs])" by (rule arg_cong)
  then have "mset (map (\<lambda>i. rs ! i) (argsort (map key rs)))
             = mset (map (\<lambda>i. rs ! i) [0..<length rs])" by (simp only: mset_map)
  then show ?thesis by (simp only: sort_values_def map_nth)
qed

lemma sort_values_Nil:
  assumes "permutes_positions argsort"
  shows "sort_values argsort key [] = []"
  using mset_sort_values [OF assms, of key "[]"] by simp

lemma sum_list_sort_values:
  assumes "permutes_positions argsort"
  shows "sum_list (map f (sort_values argsort key rs)) = sum_list (map (f :: 'r \<Rightarrow> int) rs)"
proof -
  have "mset (map f (sort_values argsort key rs)) = mset (map f rs)"
    by (simp only: mset_map mset_sort_values [OF assms])
  then have "sum_mset (mset (map f (sort_values argsort key rs))) = sum_mset (mset (map f rs))"
    by (rule arg_cong)
  then show ?thesis by (simp only: sum_mset_sum_list)
qed

lemma permutes_positions_stable_argsort: "permutes_positions stable_argsort"
  unfolding permutes_positions_def stable_argsort_def
proof
  fix ks :: "int list"
  have "mset (map snd (sort_key (\<lambda>p. - fst p) (zip ks [0..<length ks])))
        = image_mset snd (mset (zip ks [0..<length ks]))"
    by (simp only: mset_map mset_sort)
  also have "\<dots> = mset (map snd (zip ks [0..<length ks]))" by (simp only: mset_map)
  also have "map snd (zip ks [0..<length ks]) = [0..<length ks]" by simp
  finally show "mset (map snd (sort_key (\<lambda>p. - fst p) (zip ks [0..<length ks]))) = mset [0..<length ks]" .
qed

section \<open>Properties of the groups\<close>

lemma groupby_Nil: "groupby key [] = []"
  by (simp add: groupby_def List.map_filter_def)

lemma groupby_month_Nil: "groupby_month [] = []"
  by (simp add: groupby_month_def)

lemma map_filter_present:
  "List.map_filter key (filter (\<lambda>r. key r \<noteq> None) df) = List.map_filter key df"
  by (induction df) (auto simp: List.map_filter_def)

lemma groupby_dropna: "groupby key (filter (\<lambda>r. key r \<noteq> None) df) = groupby key df"
proof -
  have "filter (\<lambda>r. key r \<noteq> None \<and> key r = Some k) df = filter (\<lambda>r. key r = Some k) df" for k
    by (rule filter_cong) auto
  then show ?thesis unfolding groupby_def by (simp only: map_filter_present filter_filter)
qed

lemma set_map_filter: "set (List.map_filter key df) = {k. \<exists>r \<in> set df. key r = Some k}"
  by (induction df) (auto simp: List.map_filter_def)

lemma sum_groups:
  fixes f :: "'r \<Rightarrow> int"
  assumes "finite K" "\<forall>r \<in> set df. \<forall>k. key r = Some k \<longrightarrow> k \<in> K"
  shows "(\<Sum>k \<in> K. sum_list (map f (filter (\<lambda>r. key r = Some k) df)))
         = sum_list (map f (filter (\<lambda>r. key r \<noteq> None) df))"
  using assms(2)
proof (induction df)
  case Nil
  then show ?case by simp
next
  case (Cons r df)
  then have ih: "(\<Sum>k \<in> K. sum_list (map f (filter (\<lambda>r. key r = Some k) df)))
         = sum_list (map f (filter (\<lambda>r. key r \<noteq> None) df))" by simp
  show ?case
  proof (cases "key r")
    case None
    then show ?thesis using ih by simp
  next
    case (Some k0)
    with Cons.prems have k0: "k0 \<in> K" by simp
    have "(\<Sum>k \<in> K. sum_list (map f (filter (\<lambda>r. key r = Some k) (r # df))))
          = (\<Sum>k \<in> K. (if k = k0 then f r else 0) + sum_list (map f (filter (\<lambda>r. key r = Some k) df)))"
      using Some by (intro sum.cong) auto
    also have "\<dots> = (\<Sum>k \<in> K. if k = k0 then f r else 0)
                     + (\<Sum>k \<in> K. sum_list (map f (filter (\<lambda>r. key r = Some k) df)))"
      by (rule sum.distrib)
    also have "(\<Sum>k \<in> K. if k = k0 then f r else 0) = f r"
      using assms(1) k0 by simp
    finally show ?thesis using ih Some by simp
  qed
qed

lemma sum_list_groupby:
  fixes f :: "'r \<Rightarrow> int"
  shows "sum_list (map (\<lambda>g. sum_list (map f (snd g))) (groupby key df))
         = sum_list (map f (filter (\<lambda>r. key r \<noteq> None) df))"
proof -
  let ?ks = "sort (remdups (List.map_filter key df))"
  have d: "distinct ?ks" by simp
  have s: "set ?ks = {k. \<exists>r \<in> set df. key r = Some k}" by (simp add: set_map_filter)
  have "sum_list (map (\<lambda>g. sum_list (map f (snd g))) (groupby key df))
        = sum_list (map (\<lambda>k. sum_list (map f (filter (\<lambda>r. key r = Some k) df))) ?ks)"
    by (simp add: groupby_def comp_def)
  also have "\<dots> = (\<Sum>k \<in> set ?ks. sum_list (map f (filter (\<lambda>r. key r = Some k) df)))"
    using d by (rule sum_list_distinct_conv_sum_set)
  also have "\<dots> = sum_list (map f (filter (\<lambda>r. key r \<noteq> None) df))"
  proof (rule sum_groups)
    show "finite (set ?ks)" by (rule finite_set)
    show "\<forall>r \<in> set df. \<forall>k. key r = Some k \<longrightarrow> k \<in> set ?ks"
      unfolding s by blast
  qed
  finally show ?thesis .
qed

lemma total_spend_agg: "total_spend (agg g) = int64 (sum_list (map amount (snd g)))"
  by (simp add: agg_def int64_sum_def)

lemma sum_total_spend_category_summary:
  assumes "permutes_positions argsort"
  shows "int64_sum (map total_spend (category_summary argsort df))
         = int64_sum (map amount (filter (\<lambda>r. category r \<noteq> None) df))"
proof -
  have "sum_list (map total_spend (category_summary argsort df))
        = sum_list (map total_spend (map agg (groupby category df)))"
    unfolding category_summary_def by (rule sum_list_sort_values [OF assms])
  also have "\<dots> = sum_list (map (\<lambda>g. int64 (sum_list (map amount (snd g)))) (groupby category df))"
    by (simp add: comp_def total_spend_agg)
  finally have "int64_sum (map total_spend (category_summary argsort df))
        = int64 (sum_list (map (\<lambda>g. int64 (sum_list (map amount (snd g)))) (groupby category df)))"
    by (simp only: int64_sum_def)
  also have "\<dots> = int64 (sum_list (map (\<lambda>g. sum_list (map amount (snd g))) (groupby category df)))"
    by (rule int64_sum_list_int64)
  also have "\<dots> = int64 (sum_list (map amount (filter (\<lambda>r. category r \<noteq> None) df)))"
    by (simp only: sum_list_groupby)
  finally show ?thesis by (simp only: int64_sum_def)
qed

lemma agg_mset:
  assumes "mset g' = mset g"
  shows "agg (k, g') = agg (k, g)"
proof -
  have l: "length g' = length g" using assms by (rule mset_eq_length)
  have "mset (map amount g') = mset (map amount g)" using assms by (simp only: mset_map)
  then have "sum_mset (mset (map amount g')) = sum_mset (mset (map amount g))" by (rule arg_cong)
  then have a: "sum_list (map amount g') = sum_list (map amount g)" by (simp only: sum_mset_sum_list)
  have "mset (map is_fraud g') = mset (map is_fraud g)" using assms by (simp only: mset_map)
  then have "sum_mset (mset (map is_fraud g')) = sum_mset (mset (map is_fraud g))" by (rule arg_cong)
  then have f: "sum_list (map is_fraud g') = sum_list (map is_fraud g)" by (simp only: sum_mset_sum_list)
  show ?thesis by (simp add: agg_def int64_sum_def l a f)
qed

lemma group_keys_monthly_summary:
  "map group_key (monthly_summary df) = filter (\<lambda>m. Some m \<in> set (map month_name df)) categories"
  by (simp add: monthly_summary_def groupby_month_def agg_def comp_def)

lemma categories_sorted: "sorted_wrt (\<lambda>a b. month_code a < month_code b) categories"
  by (simp add: categories_def)

lemma monthly_summary_mset:
  assumes "mset df' = mset df"
  shows "monthly_summary df' = monthly_summary df"
proof -
  have "mset (map month_name df') = mset (map month_name df)"
    using assms by (simp only: mset_map)
  then have s: "set (map month_name df') = set (map month_name df)"
    by (rule mset_eq_setD)
  have "agg (m, filter (\<lambda>r. month_name r = Some m) df') = agg (m, filter (\<lambda>r. month_name r = Some m) df)" for m
    by (rule agg_mset) (simp only: mset_filter assms)
  then show ?thesis
    unfolding monthly_summary_def groupby_month_def s by (simp add: comp_def)
qed

text \<open>
  Claim C7. For a table whose \<open>month_name\<close> column holds the ordered categories that the
  loader gives it, the rows of \<open>monthly_summary\<close> come in calendar order, every month at
  most once, and the whole summary is the same for every order of the input rows.
\<close>

theorem monthly_summary_calendar_order:
  "sorted_wrt (\<lambda>a b. month_code a < month_code b) (map group_key (monthly_summary df))
   \<and> (mset df' = mset df \<longrightarrow> monthly_summary df' = monthly_summary df)"
proof
  show "sorted_wrt (\<lambda>a b. month_code a < month_code b) (map group_key (monthly_summary df))"
    unfolding group_keys_monthly_summary by (rule sorted_wrt_filter [OF categories_sorted])
  show "mset df' = mset df \<longrightarrow> monthly_summary df' = monthly_summary df"
    using monthly_summary_mset by blast
qed

theorem monthly_summary_calendar_order_witness:
  "mset (rev sample_table) = mset sample_table
   \<and> map group_key (monthly_summary (rev sample_table)) = [January, March]
   \<and> monthly_summary (rev sample_table) = monthly_summary sample_table
   \<and> sorted_wrt (\<lambda>a b. month_code a < month_code b) (map group_key (monthly_summary sample_table))"
proof -
  have m: "mset (rev sample_table) = mset sample_table" by simp
  have k: "map group_key (monthly_summary sample_table) = [January, March]"
    by (simp add: monthly_summary_def groupby_month_def sample_table_def sample_row_def
        categories_def agg_def)
  from monthly_summary_calendar_order [of sample_table "rev sample_table"] m k
  show ?thesis by simp
qed

section \<open>Totals of the category summary\<close>

lemma sum_list_split_filter:
  fixes f :: "'r \<Rightarrow> int"
  shows "sum_list (map f df) = sum_list (map f (filter P df)) + sum_list (map f (filter (\<lambda>r. \<not> P r) df))"
  by (induction df) auto

lemma sum_list_pos_filter_zero:
  fixes f :: "'r \<Rightarrow> int"
  assumes "\<forall>r \<in> set df. 0 < f r"
  shows "0 \<le> sum_list (map f (filter P df))
         \<and> sum_list (map f (filter P df)) \<le> sum_list (map f df)
         \<and> (sum_list (map f (filter P df)) = 0 \<longleftrightarrow> (\<forall>r \<in> set df. \<not> P r))"
  using assms
proof (induction df)
  case Nil
  then show ?case by simp
next
  case (Cons r df)
  then have ih: "0 \<le> sum_list (map f (filter P df))"
    "sum_list (map f (filter P df)) \<le> sum_list (map f df)"
    "sum_list (map f (filter P df)) = 0 \<longleftrightarrow> (\<forall>r \<in> set df. \<not> P r)"
    and r: "0 < f r" by simp_all
  show ?case
  proof (cases "P r")
    case True
    with ih r show ?thesis by simp
  next
    case False
    with ih r show ?thesis by simp
  qed
qed

text \<open>
  Claim C6, as amended. For every non-empty table with an integer \<open>amount\<close> column in which
  every row has a category, the sum of the column \<open>total_spend\<close> of \<open>category_summary\<close> is the
  sum of the column \<open>amount\<close> of the table, both sums taken in \<open>int64\<close> as pandas takes them.
  It holds for every sorting routine that permutes the positions.
\<close>

theorem category_summary_conserves_total:
  assumes "permutes_positions argsort" and "df \<noteq> []" and "\<forall>r \<in> set df. category r \<noteq> None"
  shows "int64_sum (map total_spend (category_summary argsort df)) = int64_sum (map amount df)"
proof -
  have "filter (\<lambda>r. category r \<noteq> None) df = df" using assms(3) by simp
  with sum_total_spend_category_summary [OF assms(1), of df] show ?thesis by simp
qed

theorem category_summary_conserves_total_witness:
  "permutes_positions stable_argsort \<and> sample_table \<noteq> []
   \<and> map category sample_table = [Some ''Shopping'', Some ''Travel'', Some ''Shopping'']
   \<and> map total_spend (category_summary stable_argsort sample_table) = [8100, 5000]
   \<and> int64_sum (map total_spend (category_summary stable_argsort sample_table)) = 13100
   \<and> int64_sum (map amount sample_table) = 13100"
proof -
  have a: "sample_table \<noteq> []" by (simp add: sample_table_def)
  have b: "\<forall>r \<in> set sample_table. category r \<noteq> None"
    by (simp add: sample_table_def sample_row_def)
  have c: "int64_sum (map amount sample_table) = 13100"
    by (simp add: sample_table_def sample_row_def int64_sum_def int64_def)
  have d: "map category sample_table = [Some ''Shopping'', Some ''Travel'', Some ''Shopping'']"
    by (simp add: sample_table_def sample_row_def)
  have e: "map total_spend (category_summary stable_argsort sample_table) = [8100, 5000]"
    by code_simp
  from category_summary_conserves_total [OF permutes_positions_stable_argsort a b] c d e
    permutes_positions_stable_argsort a
  show ?thesis by simp
qed

text \<open>
  Claim C6, as stated for every non-empty table, fails on a table with a row whose category is
  missing: the table of one such row of amount 100 has the empty summary, whose total is 0.
\<close>

theorem category_summary_total_counterexample:
  "sample_table_uncategorised \<noteq> []
   \<and> category_summary stable_argsort sample_table_uncategorised = []
   \<and> int64_sum (map total_spend (category_summary stable_argsort sample_table_uncategorised)) = 0
   \<and> int64_sum (map amount sample_table_uncategorised) = 100"
  by (simp add: sample_table_uncategorised_def sample_row_def category_summary_def groupby_def
      List.map_filter_def sort_values_def stable_argsort_def int64_sum_def int64_def)

text \<open>
  Claim C10, as stated, fails in its last part on a table with a row of amount 0 that has no
  category: the total of the summary is the total of the table, 100, although a category
  is missing.
\<close>

theorem category_summary_missing_category_counterexample:
  "map category sample_table_zero = [Some ''Shopping'', None]
   \<and> map amount sample_table_zero = [100, 0]
   \<and> int64_sum (map total_spend (category_summary stable_argsort sample_table_zero)) = 100
   \<and> int64_sum (map amount sample_table_zero) = 100"
proof -
  have "map total_spend (category_summary stable_argsort sample_table_zero) = [100]" by code_simp
  then show ?thesis
    by (simp add: sample_table_zero_def sample_row_def int64_sum_def int64_def)
qed

text \<open>
  Claim C10, as amended. The rows whose category is missing take no part in
  \<open>category_summary\<close>: the summary of a table is the summary of its rows that have a category;
  its rows are the aggregates of the categories that are present, one for each, so the
  missing category forms no group. For an integer \<open>amount\<close> column, the total of the summary
  is the sum of the amounts of the rows that have a category, so it is the total of the table
  exactly when the amounts of the rows without category sum to zero, all sums taken in
  \<open>int64\<close>. On a table of positive amounts whose total is below \<open>2^63\<close>, that is exactly when
  every row has a category.
\<close>

theorem category_summary_drops_missing_category:
  assumes "permutes_positions argsort"
  shows "category_summary argsort df = category_summary argsort (filter (\<lambda>r. category r \<noteq> None) df)
         \<and> mset (category_summary argsort df)
           = mset (map (\<lambda>k. agg (k, filter (\<lambda>r. category r = Some k) df))
                    (sort (remdups (List.map_filter category df))))
         \<and> int64_sum (map total_spend (category_summary argsort df))
           = int64_sum (map amount (filter (\<lambda>r. category r \<noteq> None) df))
         \<and> (int64_sum (map total_spend (category_summary argsort df)) = int64_sum (map amount df)
              \<longleftrightarrow> int64_sum (map amount (filter (\<lambda>r. category r = None) df)) = 0)
         \<and> ((\<forall>r \<in> set df. 0 < amount r) \<and> sum_list (map amount df) < 2 ^ 63 \<longrightarrow>
              (int64_sum (map total_spend (category_summary argsort df)) = int64_sum (map amount df)
               \<longleftrightarrow> (\<forall>r \<in> set df. category r \<noteq> None)))"
proof -
  let ?P = "sum_list (map amount (filter (\<lambda>r. category r \<noteq> None) df))"
  let ?N = "sum_list (map amount (filter (\<lambda>r. category r = None) df))"
  have a: "category_summary argsort df = category_summary argsort (filter (\<lambda>r. category r \<noteq> None) df)"
    by (simp only: category_summary_def groupby_dropna)
  have b: "mset (category_summary argsort df)
         = mset (map (\<lambda>k. agg (k, filter (\<lambda>r. category r = Some k) df))
                  (sort (remdups (List.map_filter category df))))"
    unfolding category_summary_def mset_sort_values [OF assms] by (simp add: groupby_def comp_def)
  have s: "int64_sum (map total_spend (category_summary argsort df))
         = int64_sum (map amount (filter (\<lambda>r. category r \<noteq> None) df))"
    by (rule sum_total_spend_category_summary [OF assms])
  have split: "sum_list (map amount df) = ?P + ?N"
    using sum_list_split_filter [of amount df "\<lambda>r. category r \<noteq> None"] by simp
  have c: "int64_sum (map total_spend (category_summary argsort df)) = int64_sum (map amount df)
           \<longleftrightarrow> int64_sum (map amount (filter (\<lambda>r. category r = None) df)) = 0"
  proof -
    have "int64 ?P = int64 (?P + ?N) \<longleftrightarrow> (2 ^ 64 :: int) dvd (?P - (?P + ?N))"
      by (rule int64_eq_iff)
    also have "\<dots> \<longleftrightarrow> (2 ^ 64 :: int) dvd ?N" by simp
    also have "\<dots> \<longleftrightarrow> int64 ?N = 0" by (rule int64_eq_0_iff [symmetric])
    finally show ?thesis unfolding s by (simp only: int64_sum_def split)
  qed
  have d: "int64_sum (map total_spend (category_summary argsort df)) = int64_sum (map amount df)
           \<longleftrightarrow> (\<forall>r \<in> set df. category r \<noteq> None)"
    if pos: "\<forall>r \<in> set df. 0 < amount r" and small: "sum_list (map amount df) < 2 ^ 63"
  proof -
    from sum_list_pos_filter_zero [OF pos, of "\<lambda>r. category r = None"]
    have n: "0 \<le> ?N" "?N \<le> sum_list (map amount df)"
      "?N = 0 \<longleftrightarrow> (\<forall>r \<in> set df. category r \<noteq> None)" by simp_all
    from n small have "int64 ?N = ?N" by (intro int64_small) simp_all
    with c n(3) show ?thesis by (simp only: int64_sum_def)
  qed
  from a b s c d show ?thesis by blast
qed

theorem category_summary_drops_missing_category_witness:
  "permutes_positions stable_argsort
   \<and> map amount sample_table_null = [100, 5000, 8000]
   \<and> map category sample_table_null = [Some ''Shopping'', Some ''Travel'', None]
   \<and> category_summary stable_argsort sample_table_null
     = [\<lparr> group_key = ''Travel'', total_spend = 5000, transaction_count = 1, avg_spend = 5000, flagged = 1 \<rparr>,
        \<lparr> group_key = ''Shopping'', total_spend = 100, transaction_count = 1, avg_spend = 100, flagged = 0 \<rparr>]
   \<and> category_summary stable_argsort (filter (\<lambda>r. category r \<noteq> None) sample_table_null)
     = category_summary stable_argsort sample_table_null
   \<and> int64_sum (map total_spend (category_summary stable_argsort sample_table_null)) = 5100
   \<and> int64_sum (map amount (filter (\<lambda>r. category r = None) sample_table_null)) = 8000
   \<and> int64_sum (map amount sample_table_null) = 13100"
proof -
  have p: "map amount sample_table_null = [100, 5000, 8000]"
    by (simp add: sample_table_null_def sample_row_def)
  have n: "map category sample_table_null = [Some ''Shopping'', Some ''Travel'', None]"
    by (simp add: sample_table_null_def sample_row_def)
  have c: "category_summary stable_argsort sample_table_null
     = [\<lparr> group_key = ''Travel'', total_spend = 5000, transaction_count = 1, avg_spend = 5000, flagged = 1 \<rparr>,
        \<lparr> group_key = ''Shopping'', total_spend = 100, transaction_count = 1, avg_spend = 100, flagged = 0 \<rparr>]"
    by code_simp
  have t: "int64_sum (map amount sample_table_null) = 13100"
    by (simp add: p int64_sum_def int64_def)
  have f: "int64_sum (map amount (filter (\<lambda>r. category r \<noteq> None) sample_table_null)) = 5100"
    by (simp add: sample_table_null_def sample_row_def int64_sum_def int64_def)
  have g: "int64_sum (map amount (filter (\<lambda>r. category r = None) sample_table_null)) = 8000"
    by (simp add: sample_table_null_def sample_row_def int64_sum_def int64_def)
  note d = category_summary_drops_missing_category
    [OF permutes_positions_stable_argsort, of sample_table_null]
  from d have "category_summary stable_argsort sample_table_null
               = category_summary stable_argsort (filter (\<lambda>r. category r \<noteq> None) sample_table_null)"
    by (rule conjunct1)
  then have a: "category_summary stable_argsort (filter (\<lambda>r. category r \<noteq> None) sample_table_null)
                = category_summary stable_argsort sample_table_null" by (rule sym)
  from d have "int64_sum (map total_spend (category_summary stable_argsort sample_table_null))
               = int64_sum (map amount (filter (\<lambda>r. category r \<noteq> None) sample_table_null))" by blast
  then have s: "int64_sum (map total_spend (category_summary stable_argsort sample_table_null)) = 5100"
    by (simp only: f)
  from permutes_positions_stable_argsort p n c a s g t show ?thesis by (intro conjI)
qed

section \<open>The empty table\<close>

lemma dayofweek_summary_Nil: "dayofweek_summary [] = map (\<lambda>d. (d, None)) order"
  by (simp add: dayofweek_summary_def groupby_Nil reindex_def)

lemma basic_info_Nil: "basic_info [] = Inl AttributeError"
  by (simp add: basic_info_def series_mean_def round_method_def)

text \<open>
  Claim C1, as stated, fails on \<open>dayofweek_summary\<close>: for the empty table it has seven rows,
  one for each day of \<open>order\<close>. And \<open>basic_info\<close> fails on the empty table with the
  \<open>AttributeError\<close> of the call \<^verbatim>\<open>.round(2)\<close>, not with an error of its own for the empty
  table.
\<close>

theorem empty_table_counterexample:
  "length (dayofweek_summary []) = 7 \<and> dayofweek_summary [] \<noteq> []
   \<and> basic_info [] = Inl AttributeError"
  by (simp add: dayofweek_summary_Nil basic_info_Nil order_def)

text \<open>
  Claim C1, as amended. For the empty table, the summaries by month, category, merchant,
  hour, payment mode and state have no rows, for every sorting routine that permutes the
  positions; \<open>dayofweek_summary\<close> has its seven rows, one for each day from Monday to Sunday,
  with missing metrics; \<open>basic_info\<close> returns no dictionary with NaN statistics: it fails
  with an \<open>AttributeError\<close>.
\<close>

theorem empty_table_summaries:
  assumes "permutes_positions argsort"
  shows "monthly_summary [] = []
         \<and> category_summary argsort [] = []
         \<and> top_merchants argsort [] n = []
         \<and> hourly_summary [] = []
         \<and> payment_mode_summary [] = []
         \<and> state_summary argsort [] = []
         \<and> dayofweek_summary [] = map (\<lambda>d. (d, None)) order
         \<and> basic_info [] = Inl AttributeError"
  by (simp add: monthly_summary_def groupby_month_Nil category_summary_def top_merchants_def
      hourly_summary_def payment_mode_summary_def state_summary_def groupby_Nil
      sort_values_Nil [OF assms] head_def dayofweek_summary_Nil basic_info_Nil)

theorem empty_table_summaries_witness:
  "permutes_positions stable_argsort
   \<and> category_summary stable_argsort [] = []
   \<and> top_merchants stable_argsort [] 10 = []
   \<and> state_summary stable_argsort [] = []
   \<and> map fst (dayofweek_summary []) = order
   \<and> basic_info [] = Inl AttributeError"
  using empty_table_summaries [OF permutes_positions_stable_argsort, of 10]
    permutes_positions_stable_argsort
  by (simp add: comp_def)

section \<open>The odd-hour component\<close>

text \<open>
  Claim C3. The odd-hour component of a transaction is 30 when its hour is at least 1 and less
  than 5, and 0 otherwise; the hours 0 and 5 give 0. It is the second of the three summands of
  the score of every row of the table.
\<close>

theorem odd_hour_component:
  "odd_hour h = (if 1 \<le> h \<and> h < 5 then 30 else 0)
   \<and> odd_hour 0 = 0 \<and> odd_hour 5 = 0
   \<and> (\<forall>i < length df.
         component_sum df ! i
         = rank_pct (map amount df) ! i * 40 + odd_hour (hour (df ! i))
           + high_val (quantile (95 / 100) (map amount df)) (amount (df ! i)))"
  using component_sum_nth [of _ df] by (simp add: odd_hour_iff)

theorem odd_hour_component_witness:
  "odd_hour 1 = 30 \<and> odd_hour 4 = 30 \<and> odd_hour 0 = 0 \<and> odd_hour 5 = 0
   \<and> (1::nat) < length sample_table \<and> hour (sample_table ! 1) = 2
   \<and> component_sum sample_table ! 1 = 170 / 3
   \<and> rank_pct (map amount sample_table) ! 1 * 40 + 30
       + high_val (quantile (95 / 100) (map amount sample_table)) (amount (sample_table ! 1)) = 170 / 3"
proof -
  have l: "(1::nat) < length sample_table" by (simp add: sample_table_def)
  have h: "hour (sample_table ! 1) = 2" by (simp add: sample_table_def sample_row_def)
  have c: "component_sum sample_table ! 1 = 170 / 3" by code_simp
  from odd_hour_component [of 1 sample_table] odd_hour_component [of 4 sample_table]
    odd_hour_component [of 2 sample_table] l h c
  show ?thesis by simp
qed

section \<open>The scorer works on a copy\<close>

text \<open>
  Claim C4. \<open>compute_anomaly_score\<close> leaves the object it receives, and every other object
  of the heap, as it was. It returns a new object that has the rows and columns of the input
  and the column \<open>anomaly_score\<close>, with one score for each row.
\<close>

theorem compute_anomaly_score_copies:
  assumes "df < length h" and "compute_anomaly_score h df = (df', h')"
  shows "h' ! df = h ! df
         \<and> (\<forall>i < length h. h' ! i = h ! i)
         \<and> df' \<noteq> df \<and> df' < length h'
         \<and> rows (h' ! df') = rows (h ! df)
         \<and> (\<exists>col. anomaly_score (h' ! df') = Some col \<and> length col = length (rows (h ! df))
                  \<and> col = anomaly_score_column (rows (h ! df)))"
  using assms unfolding compute_anomaly_score_eq [OF assms(1)]
  by (auto simp: nth_append length_anomaly_score_column)

theorem compute_anomaly_score_copies_witness:
  "(0::nat) < length sample_heap
   \<and> fst (compute_anomaly_score sample_heap 0) = 1
   \<and> snd (compute_anomaly_score sample_heap 0) ! 0 = \<lparr> rows = sample_table, anomaly_score = None \<rparr>
   \<and> rows (snd (compute_anomaly_score sample_heap 0) ! 1) = sample_table
   \<and> anomaly_score (snd (compute_anomaly_score sample_heap 0) ! 1) = Some [133 / 10, 567 / 10, 60]"
proof -
  have l: "(0::nat) < length sample_heap" by (simp add: sample_heap_def)
  obtain r h' where c: "compute_anomaly_score sample_heap 0 = (r, h')" by (cases "compute_anomaly_score sample_heap 0")
  have r: "r = 1" using c unfolding compute_anomaly_score_eq [OF l] by (simp add: sample_heap_def)
  have s: "anomaly_score_column sample_table = [133 / 10, 567 / 10, 60]" by code_simp
  from compute_anomaly_score_copies [OF l c] l r s
  show ?thesis unfolding c by (simp add: sample_heap_def)
qed

section \<open>The score does not depend on the row order\<close>

lemma length_filter_mset:
  assumes "mset xs' = mset xs"
  shows "length (filter P xs') = length (filter P xs)"
proof -
  have "mset (filter P xs') = mset (filter P xs)" by (simp only: mset_filter assms)
  then show ?thesis by (rule mset_eq_length)
qed

lemma rank_avg_mset:
  assumes "mset xs' = mset xs"
  shows "rank_avg xs' a = rank_avg xs a"
  unfolding rank_avg_def by (simp only: length_filter_mset [OF assms])

lemma sort_mset:
  fixes xs :: "int list"
  assumes "mset xs' = mset xs"
  shows "sort xs' = sort xs"
proof (rule properties_for_sort)
  show "mset (sort xs) = mset xs'" using assms by simp
  show "sorted (sort xs)" by simp
qed

lemma quantile_mset:
  assumes "mset xs' = mset xs"
  shows "quantile q xs' = quantile q xs"
proof -
  have l: "length xs' = length xs" using assms by (rule mset_eq_length)
  then have e: "xs' = [] \<longleftrightarrow> xs = []" by (simp only: length_0_conv [symmetric])
  show ?thesis unfolding quantile_def by (simp only: l e sort_mset [OF assms])
qed

lemma anomaly_score_column_map:
  "anomaly_score_column df =
     map (\<lambda>r. np_round 1 (clip 0 100
            (rank_avg (map amount df) (amount r) / of_nat (length df) * 40 + odd_hour (hour r)
             + high_val (quantile (95 / 100) (map amount df)) (amount r)))) df"
  by (rule nth_equalityI)
     (simp_all add: length_anomaly_score_column anomaly_score_column_def length_component_sum
        component_sum_nth rank_pct_def)

lemma zip_map_self: "zip xs (map f xs) = map (\<lambda>x. (x, f x)) xs"
  by (induction xs) auto

lemma scored_rows_mset:
  assumes "mset df' = mset df"
  shows "mset (zip df' (anomaly_score_column df')) = mset (zip df (anomaly_score_column df))"
proof -
  have a: "mset (map amount df') = mset (map amount df)" using assms by (simp only: mset_map)
  have l: "length df' = length df" using assms by (rule mset_eq_length)
  have "anomaly_score_column df' =
     map (\<lambda>r. np_round 1 (clip 0 100
            (rank_avg (map amount df) (amount r) / of_nat (length df) * 40 + odd_hour (hour r)
             + high_val (quantile (95 / 100) (map amount df)) (amount r)))) df'"
    unfolding anomaly_score_column_map [of df']
    by (simp only: rank_avg_mset [OF a] quantile_mset [OF a] l)
  then show ?thesis
    unfolding anomaly_score_column_map [of df]
    by (simp only: zip_map_self mset_map assms)
qed

text \<open>
  Claim C5. When the rows of a table are permuted, every transaction keeps its score: the
  pairs of a row and its score are the same, with the same multiplicities, and when the
  transaction identifiers are distinct, the score found under an identifier is the same.
\<close>

theorem anomaly_score_permutation_invariant:
  assumes "mset df' = mset df"
  shows "mset (zip df' (anomaly_score_column df')) = mset (zip df (anomaly_score_column df))
         \<and> (distinct (map transaction_id df) \<longrightarrow>
              map_of (zip (map transaction_id df') (anomaly_score_column df'))
              = map_of (zip (map transaction_id df) (anomaly_score_column df)))"
proof
  show m: "mset (zip df' (anomaly_score_column df')) = mset (zip df (anomaly_score_column df))"
    by (rule scored_rows_mset [OF assms])
  show "distinct (map transaction_id df) \<longrightarrow>
              map_of (zip (map transaction_id df') (anomaly_score_column df'))
              = map_of (zip (map transaction_id df) (anomaly_score_column df))"
  proof
    assume d: "distinct (map transaction_id df)"
    have t: "mset (map transaction_id df') = mset (map transaction_id df)"
      using assms by (simp only: mset_map)
    then have d': "distinct (map transaction_id df')"
      using d mset_eq_imp_distinct_iff [OF t] by blast
    have z: "zip (map transaction_id xs) (anomaly_score_column xs)
             = map (\<lambda>p. (transaction_id (fst p), snd p)) (zip xs (anomaly_score_column xs))" for xs
      by (auto simp: zip_map1)
    have "mset (zip (map transaction_id df') (anomaly_score_column df'))
          = mset (zip (map transaction_id df) (anomaly_score_column df))"
      unfolding z by (simp only: mset_map m)
    then have s: "set (zip (map transaction_id df') (anomaly_score_column df'))
          = set (zip (map transaction_id df) (anomaly_score_column df))"
      by (rule mset_eq_setD)
    have f: "map fst (zip (map transaction_id xs) (anomaly_score_column xs)) = map transaction_id xs" for xs
      by (simp add: length_anomaly_score_column)
    show "map_of (zip (map transaction_id df') (anomaly_score_column df'))
              = map_of (zip (map transaction_id df) (anomaly_score_column df))"
      using s d d' by (simp only: map_of_inject_set f)
  qed
qed

theorem anomaly_score_permutation_invariant_witness:
  "mset (rev sample_table) = mset sample_table
   \<and> distinct (map transaction_id sample_table)
   \<and> anomaly_score_column sample_table = [133 / 10, 567 / 10, 60]
   \<and> anomaly_score_column (rev sample_table) = [60, 567 / 10, 133 / 10]
   \<and> mset (zip (rev sample_table) (anomaly_score_column (rev sample_table)))
     = mset (zip sample_table (anomaly_score_column sample_table))
   \<and> map_of (zip (map transaction_id (rev sample_table)) (anomaly_score_column (rev sample_table)))
     = map_of (zip (map transaction_id sample_table) (anomaly_score_column sample_table))"
proof -
  have m: "mset (rev sample_table) = mset sample_table" by simp
  have d: "distinct (map transaction_id sample_table)"
    by (simp add: sample_table_def sample_row_def)
  have a: "anomaly_score_column sample_table = [133 / 10, 567 / 10, 60]" by code_simp
  have b: "anomaly_score_column (rev sample_table) = [60, 567 / 10, 133 / 10]" by code_simp
  from anomaly_score_permutation_invariant [OF m] m d a b show ?thesis by blast
qed

section \<open>The anomaly score on float columns\<close>















subsection \<open>An integer table seen as a float table\<close>












section \<open>When the loader fails\<close>










end
